theory Spec2Isabelle
  imports Main "HOL-Library.Word"
begin

section \<open>Data model\<close>

text \<open>
  The collector exists twice in the repository: \<^verbatim>\<open>src/GC/lib/heap.cpp\<close> (functions
  suffixed \<open>_lib\<close> below) and \<^verbatim>\<open>src/GC/heap.cpp\<close> (suffixed \<open>_top\<close>). \<open>mark\<close> is
  the same text in both files; \<open>sweep\<close> exists only in the first, \<open>compact\<close> only in
  the second.

  Addresses are byte addresses, modelled as natural numbers (pointer arithmetic that
  leaves the address space is undefined in C++ and is not given a wrap-around here).
  \<^verbatim>\<open>size_t\<close> is an unsigned 64-bit integer whose arithmetic wraps (LP64), and
  \<^verbatim>\<open>sizeof(uintptr_t)\<close> is 8.
\<close>

type_synonym addr = nat
type_synonym size_t = "64 word"
type_synonym chunk_ptr = nat

text \<open>
  Modelled from the spec: \<^verbatim>\<open>chunk.hpp\<close>, which declares \<^verbatim>\<open>Chunk\<close>, is not among the
  sources. The specification gives \<open>{ start: address, size: bytes, marked: bool }\<close> and
  \<open>marked = false\<close> for a new descriptor. The field \<^verbatim>\<open>size\<close> is called \<open>csize\<close>
  here. The pointee type of \<^verbatim>\<open>Chunk::start\<close> is unknown, so the number of bytes by
  which \<^verbatim>\<open>chunk->start + chunk->size\<close> advances per unit of \<^verbatim>\<open>size\<close> is the
  parameter \<open>k\<close> of the functions below (1 for \<^verbatim>\<open>void *\<close>, 8 for \<^verbatim>\<open>uintptr_t *\<close>).
\<close>

record Chunk =
  start :: addr
  csize :: size_t
  marked :: bool

text \<open>
  The ways a call can end without returning: the two assertions of \<^verbatim>\<open>alloc\<close> abort
  the process, and \<^verbatim>\<open>__builtin_frame_address(10)\<close> in \<^verbatim>\<open>heap.cpp\<close> kills it with a
  segmentation fault when the stack has no tenth caller frame (a comment in
  \<^verbatim>\<open>lib/heap.cpp\<close> notes that the call segfaults for arguments above 2).
\<close>

datatype error = InvalidRequest | OutOfMemory | SegmentationFault

text \<open>
  The members of \<^verbatim>\<open>class Heap\<close> that the two files use. The vectors hold pointers
  to \<^verbatim>\<open>Chunk\<close> objects, so the objects themselves live in a store, \<open>chunk_at\<close>,
  indexed by pointer; \<open>next_chunk\<close> is the pointer the next \<^verbatim>\<open>new Chunk\<close> returns.
  \<^verbatim>\<open>delete\<close> is not modelled in the store: it is only applied to pointers that have
  just been removed from \<^verbatim>\<open>m_freed_chunks\<close>.
\<close>

record Heap =
  m_heap :: addr
  m_size :: size_t
  m_stack_top :: addr
  m_allocated_chunks :: "chunk_ptr list"
  m_freed_chunks :: "chunk_ptr list"
  chunk_at :: "chunk_ptr \<Rightarrow> Chunk"
  next_chunk :: chunk_ptr

definition HEAP_SIZE :: size_t where
  "HEAP_SIZE = 240240240"

text \<open>\<^verbatim>\<open>v.erase(v.begin() + i)\<close>\<close>

definition erase :: "'a list \<Rightarrow> nat \<Rightarrow> 'a list" where
  "erase v i = take i v @ drop (Suc i) v"

lemma length_erase: "i < length v \<Longrightarrow> length (erase v i) = length v - 1"
  by (simp add: erase_def)

text \<open>
  \<^verbatim>\<open>chunk->start + chunk->size\<close>, in bytes. A sum that leaves the 64-bit address space
  is undefined in C++; the model gives it its mathematical value, so it describes the
  runs in which no chunk reaches the end of the address space.
\<close>

definition chunk_end :: "nat \<Rightarrow> Chunk \<Rightarrow> addr" where
  "chunk_end k c = start c + k * unat (csize c)"

section \<open>Mark\<close>

text \<open>
  The inner loop of \<^verbatim>\<open>Heap::mark\<close>: the first index \<open>i\<close> of the work list, from
  \<open>i\<close> on, whose chunk contains the address \<open>s\<close> and is not marked yet. Note that
  \<open>s\<close> is the address of the stack slot (\<^verbatim>\<open>start\<close>), not the word stored in it: the
  source never dereferences \<^verbatim>\<open>start\<close>.
\<close>

function mark_scan ::
  "nat \<Rightarrow> (chunk_ptr \<Rightarrow> Chunk) \<Rightarrow> addr \<Rightarrow> chunk_ptr list \<Rightarrow> nat \<Rightarrow> nat option" where
  "mark_scan k cs s work_list i =
     (if i < length work_list then
        (let chunk = cs (work_list ! i) in
         if start chunk \<le> s \<and> s < chunk_end k chunk \<and> \<not> marked chunk then Some i
         else mark_scan k cs s work_list (i + 1))
      else None)"
  by pat_completeness auto
termination
  by (relation "measure (\<lambda>(k, cs, s, work_list, i). length work_list - i)") auto

declare mark_scan.simps [simp del]

lemma mark_scan_bound:
  "mark_scan k cs s work_list i = Some j \<Longrightarrow> j < length work_list"
proof (induction k cs s work_list i rule: mark_scan.induct)
  case (1 k cs s work_list i)
  then show ?case
    by (subst (asm) mark_scan.simps) (simp split: if_splits add: Let_def)
qed

text \<open>
  \<^verbatim>\<open>Heap::mark(start, end, work_list)\<close>. The outer loop steps \<open>s\<close> by one
  \<^verbatim>\<open>uintptr_t\<close>. On a hit the chunk is marked, erased from the work list, and the
  function calls itself from the chunk's end and then returns: the outer loop is not
  resumed. The result is the store of chunk objects (only \<open>marked\<close> flags change).
\<close>

function mark ::
  "nat \<Rightarrow> addr \<Rightarrow> addr \<Rightarrow> chunk_ptr list \<Rightarrow> (chunk_ptr \<Rightarrow> Chunk) \<Rightarrow> (chunk_ptr \<Rightarrow> Chunk)" where
  "mark k s e work_list cs =
     (if s < e then
        (case mark_scan k cs s work_list 0 of
           Some i \<Rightarrow>
             (let p = work_list ! i; chunk = cs p in
              mark k (chunk_end k chunk) e (erase work_list i) (cs(p := chunk\<lparr>marked := True\<rparr>)))
         | None \<Rightarrow> mark k (s + 8) e work_list cs)
      else cs)"
  by pat_completeness auto
termination
proof (relation "measures [\<lambda>(k, s, e, work_list, cs). length work_list,
                            \<lambda>(k, s, e, work_list, cs). e - s]")
  show "wf (measures [\<lambda>(k, s, e, work_list, cs). length work_list,
                       \<lambda>(k, s, e, work_list, cs). e - s])"
    by simp
next
  fix k s e :: nat and work_list :: "chunk_ptr list" and cs :: "chunk_ptr \<Rightarrow> Chunk"
    and i p chunk
  assume "mark_scan k cs s work_list 0 = Some i"
  then have "i < length work_list"
    by (rule mark_scan_bound)
  then show "((k, chunk_end k chunk, e, erase work_list i, cs(p := chunk\<lparr>marked := True\<rparr>)),
              (k, s, e, work_list, cs))
             \<in> measures [\<lambda>(k, s, e, work_list, cs). length work_list,
                          \<lambda>(k, s, e, work_list, cs). e - s]"
    by (auto simp add: length_erase)
next
  fix k s e :: nat and work_list :: "chunk_ptr list" and cs :: "chunk_ptr \<Rightarrow> Chunk"
  assume "s < e"
  then show "((k, s + 8, e, work_list, cs), (k, s, e, work_list, cs))
             \<in> measures [\<lambda>(k, s, e, work_list, cs). length work_list,
                          \<lambda>(k, s, e, work_list, cs). e - s]"
    by simp
qed

declare mark.simps [simp del]

section \<open>Sweep (lib/heap.cpp)\<close>

text \<open>
  \<^verbatim>\<open>Heap::sweep\<close>: the iterator \<open>it\<close> is an index into \<^verbatim>\<open>m_allocated_chunks\<close>. An
  unmarked chunk is pushed onto \<^verbatim>\<open>m_freed_chunks\<close> and erased (the iterator stays);
  a marked chunk is skipped. The iterator starts at \<^verbatim>\<open>begin()\<close> and never passes
  \<^verbatim>\<open>end()\<close>, so \<^verbatim>\<open>it != end()\<close> is \<open>it < length\<close>. No chunk object is written.
\<close>

function sweep_loop :: "Heap \<Rightarrow> nat \<Rightarrow> Heap" where
  "sweep_loop h it =
     (if it < length (m_allocated_chunks h) then
        (let chunk = m_allocated_chunks h ! it in
         if \<not> marked (chunk_at h chunk) then
           sweep_loop (h\<lparr>m_freed_chunks := m_freed_chunks h @ [chunk],
                         m_allocated_chunks := erase (m_allocated_chunks h) it\<rparr>) it
         else sweep_loop h (it + 1))
      else h)"
  by pat_completeness auto
termination
  by (relation "measure (\<lambda>(h, it). length (m_allocated_chunks h) - it)")
     (auto simp: erase_def)

declare sweep_loop.simps [simp del]

definition sweep :: "Heap \<Rightarrow> Heap" where
  "sweep h = sweep_loop h 0"

section \<open>Releasing the freed descriptors\<close>

text \<open>
  \<^verbatim>\<open>while (m_freed_chunks.size()) { ... pop_back(); delete chunk_pointer; }\<close>,
  the last statement of \<^verbatim>\<open>collect\<close> in both files.
\<close>

function release_freed :: "Heap \<Rightarrow> Heap" where
  "release_freed h =
     (if length (m_freed_chunks h) \<noteq> 0 then
        release_freed (h\<lparr>m_freed_chunks := butlast (m_freed_chunks h)\<rparr>)
      else h)"
  by pat_completeness auto
termination
  by (relation "measure (\<lambda>h. length (m_freed_chunks h))") auto

declare release_freed.simps [simp del]

section \<open>Compaction (heap.cpp)\<close>

text \<open>
  The loop of \<^verbatim>\<open>Heap::compact\<close> over the sorted vector; \<open>heap_curr\<close> is a
  \<^verbatim>\<open>char *\<close>, so it advances in bytes. The bytes of the arena (the \<^verbatim>\<open>memmove\<close>) are
  not modelled.
\<close>

fun compact_loop ::
  "addr \<Rightarrow> chunk_ptr list \<Rightarrow> (chunk_ptr \<Rightarrow> Chunk) \<Rightarrow> (chunk_ptr \<Rightarrow> Chunk)" where
  "compact_loop heap_curr [] cs = cs"
| "compact_loop heap_curr (space # rest) cs =
     (if start (cs space) \<noteq> heap_curr then
        compact_loop (heap_curr + unat (csize (cs space))) rest
          (cs(space := (cs space)\<lparr>start := heap_curr\<rparr>))
      else compact_loop (heap_curr + unat (csize (cs space))) rest cs)"

text \<open>
  \<^verbatim>\<open>Heap::compact\<close>. \<^verbatim>\<open>std::sort\<close> with \<^verbatim>\<open>compareChunks\<close> orders the pointers by
  the chunks' start addresses; the order of chunks with equal start is unspecified in
  C++ and is the stable one here, so the model describes the runs in which the live
  chunks have distinct starts (\<open>reach_top_starts\<close> below shows that these are the
  runs in which \<^verbatim>\<open>size_t\<close> has not wrapped). \<^verbatim>\<open>m_size\<close> and \<^verbatim>\<open>m_freed_chunks\<close> are not
  written.
\<close>

definition compact :: "Heap \<Rightarrow> Heap" where
  "compact h =
     (let sorted = sort_key (\<lambda>p. start (chunk_at h p)) (m_allocated_chunks h);
          h1 = h\<lparr>m_allocated_chunks := sorted\<rparr>
      in h1\<lparr>chunk_at := compact_loop (m_heap h1) (m_allocated_chunks h1) (chunk_at h1)\<rparr>)"

section \<open>Collect\<close>

text \<open>
  The stack range handed to \<^verbatim>\<open>mark\<close>. \<open>fa n\<close> is the address of the \<open>n\<close>-th frame
  up from the current one, and \<open>d\<close> is the number of caller frames the stack has at
  the call: \<^verbatim>\<open>__builtin_frame_address(0)\<close> always returns \<open>fa 0\<close>, and
  \<^verbatim>\<open>__builtin_frame_address(n)\<close> returns \<open>fa n\<close> when \<open>n \<le> d\<close> and faults otherwise.
  In \<^verbatim>\<open>lib/heap.cpp\<close> the end of the range is the null pointer, in \<^verbatim>\<open>heap.cpp\<close> it
  is the frame ten calls up, and \<open>None\<close> is the fault. Neither reads \<^verbatim>\<open>m_stack_top\<close>.
\<close>

definition stack_range_lib :: "(nat \<Rightarrow> addr) \<Rightarrow> Heap \<Rightarrow> addr \<times> addr" where
  "stack_range_lib fa h = (let stack_start = fa 0; stack_end = 0 in (stack_start, stack_end))"

definition stack_range_top :: "(nat \<Rightarrow> addr) \<Rightarrow> nat \<Rightarrow> Heap \<Rightarrow> (addr \<times> addr) option" where
  "stack_range_top fa d h =
     (let stack_start = fa 0 in
      if 10 \<le> d then (let stack_end = fa 10 in Some (stack_start, stack_end)) else None)"

text \<open>\<^verbatim>\<open>Heap::collect()\<close> of \<^verbatim>\<open>lib/heap.cpp\<close>: mark, sweep, release.\<close>

definition collect_lib :: "nat \<Rightarrow> (nat \<Rightarrow> addr) \<Rightarrow> Heap \<Rightarrow> Heap" where
  "collect_lib k fa h =
     (let (stack_start, stack_end) = stack_range_lib fa h;
          work_list = m_allocated_chunks h;
          h1 = h\<lparr>chunk_at := mark k stack_start stack_end work_list (chunk_at h)\<rparr>;
          h2 = sweep h1
      in release_freed h2)"

text \<open>
  \<^verbatim>\<open>Heap::collect()\<close> of \<^verbatim>\<open>heap.cpp\<close>: mark, compact, release. There is no sweep.
  \<open>None\<close>: the call did not return, the process died taking the frame address.
\<close>

definition collect_top :: "nat \<Rightarrow> (nat \<Rightarrow> addr) \<Rightarrow> nat \<Rightarrow> Heap \<Rightarrow> Heap option" where
  "collect_top k fa d h =
     (case stack_range_top fa d h of
        None \<Rightarrow> None
      | Some (stack_start, stack_end) \<Rightarrow>
          (let work_list = m_allocated_chunks h;
               h1 = h\<lparr>chunk_at := mark k stack_start stack_end work_list (chunk_at h)\<rparr>;
               h2 = compact h1
           in Some (release_freed h2)))"

section \<open>Alloc\<close>

text \<open>
  The loop over \<^verbatim>\<open>m_freed_chunks\<close> in \<^verbatim>\<open>alloc\<close> (the same text in both files), from
  index \<open>i\<close>. \<open>Some (a, h')\<close> is a \<^verbatim>\<open>return a\<close> inside the loop, \<open>None\<close> is the loop
  running to its end. In the splitting branch the complement starts at
  \<^verbatim>\<open>cp->start + cp->size\<close> and \<^verbatim>\<open>cp->size\<close> is not written.
\<close>

function reuse_freed :: "nat \<Rightarrow> Heap \<Rightarrow> size_t \<Rightarrow> nat \<Rightarrow> (addr \<times> Heap) option" where
  "reuse_freed k h sz i =
     (if i < length (m_freed_chunks h) then
        (let cp = m_freed_chunks h ! i; c = chunk_at h cp in
         if csize c > sz then
           (let diff = csize c - sz;
                chunk_complement = next_chunk h;
                h1 = h\<lparr>chunk_at := (chunk_at h)
                         (chunk_complement := \<lparr>start = chunk_end k c, csize = diff, marked = False\<rparr>),
                       next_chunk := Suc (next_chunk h)\<rparr>;
                h2 = h1\<lparr>m_freed_chunks := erase (m_freed_chunks h1) i\<rparr>;
                h3 = h2\<lparr>m_freed_chunks := m_freed_chunks h2 @ [chunk_complement]\<rparr>;
                h4 = h3\<lparr>m_allocated_chunks := m_allocated_chunks h3 @ [cp]\<rparr>
            in Some (start c, h4))
         else if csize c = sz then
           (let h1 = h\<lparr>m_freed_chunks := erase (m_freed_chunks h) i\<rparr>;
                h2 = h1\<lparr>m_allocated_chunks := m_allocated_chunks h1 @ [cp]\<rparr>
            in Some (start c, h2))
         else reuse_freed k h sz (i + 1))
      else None)"
  by pat_completeness auto
termination
  by (relation "measure (\<lambda>(k, h, sz, i). length (m_freed_chunks h) - i)") auto

declare reuse_freed.simps [simp del]

text \<open>
  The tail of \<^verbatim>\<open>alloc\<close>: a new chunk at the bump offset. \<open>scale\<close> is the number of
  bytes by which the pointer addition advances per unit of \<^verbatim>\<open>m_size\<close>:
  \<^verbatim>\<open>(uintptr_t *)m_heap + m_size\<close> in \<^verbatim>\<open>lib/heap.cpp\<close> (8), \<^verbatim>\<open>(void *)m_heap + m_size\<close>
  in \<^verbatim>\<open>heap.cpp\<close> (1).
\<close>

definition bump_alloc :: "nat \<Rightarrow> Heap \<Rightarrow> size_t \<Rightarrow> addr \<times> Heap" where
  "bump_alloc scale h sz =
     (let new_chunk = next_chunk h;
          c = \<lparr>start = m_heap h + scale * unat (m_size h), csize = sz, marked = False\<rparr>;
          h1 = h\<lparr>chunk_at := (chunk_at h)(new_chunk := c), next_chunk := Suc (next_chunk h)\<rparr>;
          h2 = h1\<lparr>m_size := m_size h1 + sz\<rparr>;
          h3 = h2\<lparr>m_allocated_chunks := m_allocated_chunks h2 @ [new_chunk]\<rparr>
      in (start c, h3))"

text \<open>
  \<^verbatim>\<open>Heap::alloc\<close>, with the collector and the bump scale as arguments. The result is
  the number of calls of \<^verbatim>\<open>collect()\<close> made, and either the way the process died or
  the returned address with the heap after the call. A collector that does not return
  (\<open>None\<close>) ends the call. \<^verbatim>\<open>auto heap = Heap::the()\<close> copies the singleton on entry,
  so both capacity tests read the \<^verbatim>\<open>m_size\<close> of that copy.
\<close>

definition alloc_with ::
  "(Heap \<Rightarrow> Heap option) \<Rightarrow> nat \<Rightarrow> nat \<Rightarrow> Heap \<Rightarrow> size_t
     \<Rightarrow> nat \<times> (error + addr \<times> Heap)" where
  "alloc_with collect scale k h sz =
     (let heap = h in
      if \<not> sz > 0 then (0, Inl InvalidRequest)
      else if m_size heap + sz > HEAP_SIZE then
        (case collect h of
           None \<Rightarrow> (1, Inl SegmentationFault)
         | Some h1 \<Rightarrow>
             if \<not> m_size heap + sz \<le> HEAP_SIZE then (1, Inl OutOfMemory)
             else (1, Inr (case reuse_freed k h1 sz 0 of
                             Some r \<Rightarrow> r
                           | None \<Rightarrow> bump_alloc scale h1 sz)))
      else (0, Inr (case reuse_freed k h sz 0 of
                      Some r \<Rightarrow> r
                    | None \<Rightarrow> bump_alloc scale h sz)))"

text \<open>\<^verbatim>\<open>collect()\<close> of \<^verbatim>\<open>lib/heap.cpp\<close> takes no caller's frame address and always returns.\<close>

definition alloc_lib ::
  "nat \<Rightarrow> (nat \<Rightarrow> addr) \<Rightarrow> Heap \<Rightarrow> size_t \<Rightarrow> nat \<times> (error + addr \<times> Heap)" where
  "alloc_lib k fa h sz = alloc_with (\<lambda>h. Some (collect_lib k fa h)) 8 k h sz"

definition alloc_top ::
  "nat \<Rightarrow> (nat \<Rightarrow> addr) \<Rightarrow> nat \<Rightarrow> Heap \<Rightarrow> size_t \<Rightarrow> nat \<times> (error + addr \<times> Heap)" where
  "alloc_top k fa d h sz = alloc_with (collect_top k fa d) 1 k h sz"

text \<open>
  A client that calls \<open>alloc\<close> once for each size of a list, in order, and keeps the
  region \<open>(address, size)\<close> each call returns; a failed assertion ends the run.
\<close>

fun alloc_all ::
  "(Heap \<Rightarrow> size_t \<Rightarrow> nat \<times> (error + addr \<times> Heap)) \<Rightarrow> Heap \<Rightarrow> size_t list
     \<Rightarrow> error + (addr \<times> size_t) list" where
  "alloc_all alloc h [] = Inr []"
| "alloc_all alloc h (s # ss) =
     (case snd (alloc h s) of
        Inl e \<Rightarrow> Inl e
      | Inr (a, h') \<Rightarrow>
          (case alloc_all alloc h' ss of
             Inl e \<Rightarrow> Inl e
           | Inr rs \<Rightarrow> Inr ((a, s) # rs)))"

text \<open>Regions of the given sizes laid end to end from the address \<open>b\<close>, in bytes.\<close>

fun regions_from :: "addr \<Rightarrow> size_t list \<Rightarrow> (addr \<times> size_t) list" where
  "regions_from b [] = []"
| "regions_from b (s # ss) = (b, s) # regions_from (b + unat s) ss"

text \<open>
  \<^verbatim>\<open>enum CollectOption\<close> of \<^verbatim>\<open>include/heap.hpp\<close> and the debug overload
  \<^verbatim>\<open>Heap::collect(uint flags)\<close> of \<^verbatim>\<open>lib/heap.cpp\<close>: each phase runs when its bit is
  set.
\<close>

definition MARK :: "32 word" where
  "MARK = 1"

definition SWEEP :: "32 word" where
  "SWEEP = 2"

definition MARK_SWEEP :: "32 word" where
  "MARK_SWEEP = 4"

definition FREE :: "32 word" where
  "FREE = 8"

definition COLLECT_ALL :: "32 word" where
  "COLLECT_ALL = 15"

definition collect_flags_lib :: "nat \<Rightarrow> (nat \<Rightarrow> addr) \<Rightarrow> Heap \<Rightarrow> 32 word \<Rightarrow> Heap" where
  "collect_flags_lib k fa h flags =
     (let (stack_start, stack_end) = stack_range_lib fa h;
          work_list = m_allocated_chunks h;
          h1 = (if and flags MARK \<noteq> 0
                then h\<lparr>chunk_at := mark k stack_start stack_end work_list (chunk_at h)\<rparr>
                else h);
          h2 = (if and flags SWEEP \<noteq> 0 then sweep h1 else h1)
      in if and flags FREE \<noteq> 0 then release_freed h2 else h2)"

section \<open>The states the code can be in\<close>

text \<open>
  The constructor \<^verbatim>\<open>Heap()\<close> of \<^verbatim>\<open>include/heap.hpp\<close>: the arena at \<open>base\<close> (the
  result of \<^verbatim>\<open>malloc\<close>), \<^verbatim>\<open>m_size{0}\<close>, \<^verbatim>\<open>m_stack_top{nullptr}\<close>, empty vectors,
  and no chunk object yet.
\<close>

definition new_Heap :: "addr \<Rightarrow> Heap" where
  "new_Heap base =
     \<lparr>m_heap = base, m_size = 0, m_stack_top = 0,
      m_allocated_chunks = [], m_freed_chunks = [],
      chunk_at = (\<lambda>p. \<lparr>start = 0, csize = 0, marked = False\<rparr>), next_chunk = 0\<rparr>"


text \<open>
  The states of a program linked with \<^verbatim>\<open>heap.cpp\<close>, which has no debug collection:
  the new heap, then calls of \<open>alloc\<close> that return.
\<close>

inductive reach_top :: "nat \<Rightarrow> Heap \<Rightarrow> bool" for k :: nat where
  top_new: "reach_top k ((new_Heap base)\<lparr>m_stack_top := t\<rparr>)"
| top_alloc: "reach_top k h \<Longrightarrow> snd (alloc_top k fa d h sz) = Inr (a, h') \<Longrightarrow> reach_top k h'"

text \<open>The extents \<open>(start, size)\<close> of the live chunks, in the order of the vector.\<close>

definition extents :: "Heap \<Rightarrow> (addr \<times> size_t) list" where
  "extents h = map (\<lambda>p. (start (chunk_at h p), csize (chunk_at h p))) (m_allocated_chunks h)"

text \<open>The sum of the sizes of the live chunks, as a number.\<close>

definition live_bytes :: "Heap \<Rightarrow> nat" where
  "live_bytes h = sum_list (map (\<lambda>p. unat (csize (chunk_at h p))) (m_allocated_chunks h))"

text \<open>
  The live chunks tile the arena from its base: each starts where the one before it
  in the vector ends, the first at \<^verbatim>\<open>m_heap\<close>.
\<close>

definition tiled :: "Heap \<Rightarrow> bool" where
  "tiled h = (extents h = regions_from (m_heap h) (map snd (extents h)))"

section \<open>Sample states\<close>

text \<open>A sample stack: frames 64 bytes apart, far above the sample arena at 4096.\<close>

definition frames :: "nat \<Rightarrow> addr" where
  "frames n = 1000000000 + 64 * n"

text \<open>One live chunk of 8 bytes at the base of the arena, not marked.\<close>

definition heap_one_chunk :: Heap where
  "heap_one_chunk =
     (new_Heap 4096)\<lparr>m_size := 8, m_allocated_chunks := [0],
       chunk_at := (chunk_at (new_Heap 4096))(0 := \<lparr>start = 4096, csize = 8, marked = False\<rparr>),
       next_chunk := 1\<rparr>"

text \<open>
  A full arena whose only chunk, the whole arena, has been swept into
  \<^verbatim>\<open>m_freed_chunks\<close>: the state after \<open>alloc(HEAP_SIZE)\<close> and
  \<^verbatim>\<open>collect(MARK | SWEEP)\<close> on a new heap.
\<close>

definition heap_full_one_freed :: Heap where
  "heap_full_one_freed =
     (new_Heap 4096)\<lparr>m_size := 240240240, m_freed_chunks := [0],
       chunk_at := (chunk_at (new_Heap 4096))
         (0 := \<lparr>start = 4096, csize = 240240240, marked = False\<rparr>),
       next_chunk := 1\<rparr>"


text \<open>
  One chunk of 10 bytes at the base of the arena, swept into \<^verbatim>\<open>m_freed_chunks\<close>:
  the state after \<open>alloc(10)\<close> and \<^verbatim>\<open>collect(MARK | SWEEP)\<close> on a new heap.
\<close>

definition heap_one_freed :: Heap where
  "heap_one_freed =
     (new_Heap 4096)\<lparr>m_size := 10, m_freed_chunks := [0],
       chunk_at := (chunk_at (new_Heap 4096))(0 := \<lparr>start = 4096, csize = 10, marked = False\<rparr>),
       next_chunk := 1\<rparr>"

section \<open>Properties of the loops\<close>

lemma release_freed_eq: "release_freed h = h\<lparr>m_freed_chunks := []\<rparr>"
proof (induction h rule: release_freed.induct)
  case (1 h)
  show ?case
  proof (cases "m_freed_chunks h = []")
    case True
    then show ?thesis by (subst release_freed.simps) simp
  next
    case False
    then have "release_freed h = release_freed (h\<lparr>m_freed_chunks := butlast (m_freed_chunks h)\<rparr>)"
      by (subst release_freed.simps) simp
    also have "\<dots> = h\<lparr>m_freed_chunks := []\<rparr>"
      using False by (simp add: "1.IH")
    finally show ?thesis .
  qed
qed

lemma sweep_loop_eq:
  "it \<le> length (m_allocated_chunks h) \<Longrightarrow>
   sweep_loop h it =
     h\<lparr>m_allocated_chunks :=
          take it (m_allocated_chunks h) @
          filter (\<lambda>p. marked (chunk_at h p)) (drop it (m_allocated_chunks h)),
        m_freed_chunks :=
          m_freed_chunks h @
          filter (\<lambda>p. \<not> marked (chunk_at h p)) (drop it (m_allocated_chunks h))\<rparr>"
proof (induction h it rule: sweep_loop.induct)
  case (1 h it)
  show ?case
  proof (cases "it < length (m_allocated_chunks h)")
    case False
    with "1.prems" show ?thesis by (subst sweep_loop.simps) simp
  next
    case True
    note lt = True
    have dr: "drop it (m_allocated_chunks h) =
              m_allocated_chunks h ! it # drop (Suc it) (m_allocated_chunks h)"
      using lt by (simp add: Cons_nth_drop_Suc)
    show ?thesis
    proof (cases "marked (chunk_at h (m_allocated_chunks h ! it))")
      case True
      then have "sweep_loop h it = sweep_loop h (it + 1)"
        using lt by (subst sweep_loop.simps) simp
      also have "\<dots> = h\<lparr>m_allocated_chunks :=
          take (it + 1) (m_allocated_chunks h) @
          filter (\<lambda>p. marked (chunk_at h p)) (drop (it + 1) (m_allocated_chunks h)),
        m_freed_chunks :=
          m_freed_chunks h @
          filter (\<lambda>p. \<not> marked (chunk_at h p)) (drop (it + 1) (m_allocated_chunks h))\<rparr>"
        using lt True by (intro "1.IH"(2)) simp_all
      finally show ?thesis
        using True lt by (simp add: dr take_Suc_conv_app_nth)
    next
      case False
      let ?h' = "h\<lparr>m_freed_chunks := m_freed_chunks h @ [m_allocated_chunks h ! it],
                    m_allocated_chunks := erase (m_allocated_chunks h) it\<rparr>"
      have "sweep_loop h it = sweep_loop ?h' it"
        using lt False by (subst sweep_loop.simps) (simp add: Let_def)
      also have "\<dots> = ?h'\<lparr>m_allocated_chunks :=
          take it (m_allocated_chunks ?h') @
          filter (\<lambda>p. marked (chunk_at ?h' p)) (drop it (m_allocated_chunks ?h')),
        m_freed_chunks :=
          m_freed_chunks ?h' @
          filter (\<lambda>p. \<not> marked (chunk_at ?h' p)) (drop it (m_allocated_chunks ?h'))\<rparr>"
        using lt False by (intro "1.IH"(1)) (simp_all add: length_erase)
      finally show ?thesis
        using False lt by (simp add: dr erase_def)
    qed
  qed
qed

lemma sweep_eq:
  "sweep h =
     h\<lparr>m_allocated_chunks := filter (\<lambda>p. marked (chunk_at h p)) (m_allocated_chunks h),
        m_freed_chunks :=
          m_freed_chunks h @ filter (\<lambda>p. \<not> marked (chunk_at h p)) (m_allocated_chunks h)\<rparr>"
  by (simp add: sweep_def sweep_loop_eq)

lemma mark_empty_range: "\<not> s < e \<Longrightarrow> mark k s e work_list cs = cs"
  by (subst mark.simps) simp


lemma collect_lib_eq:
  "collect_lib k fa h =
     h\<lparr>m_allocated_chunks := filter (\<lambda>p. marked (chunk_at h p)) (m_allocated_chunks h),
        m_freed_chunks := []\<rparr>"
  by (simp add: collect_lib_def stack_range_lib_def mark_empty_range sweep_eq release_freed_eq)

lemma collect_top_eq:
  "collect_top k fa d h =
     (if 10 \<le> d
      then Some ((compact (h\<lparr>chunk_at :=
                   mark k (fa 0) (fa 10) (m_allocated_chunks h) (chunk_at h)\<rparr>))
                 \<lparr>m_freed_chunks := []\<rparr>)
      else None)"
  by (simp add: collect_top_def stack_range_top_def release_freed_eq Let_def)

lemma collect_top_fields:
  assumes "collect_top k fa d h = Some h'"
  shows "m_size h' = m_size h" and "m_freed_chunks h' = []" and "m_heap h' = m_heap h"
  using assms by (auto simp add: collect_top_eq compact_def Let_def split: if_splits)

lemma mark_no_work: "mark k s e [] cs = cs"
proof (induction k s e "[] :: chunk_ptr list" cs rule: mark.induct)
  case (1 k s e cs)
  have none: "mark_scan k cs s [] 0 = None"
    by (subst mark_scan.simps) simp
  show ?case
  proof (cases "s < e")
    case True
    then have "mark k s e [] cs = mark k (s + 8) e [] cs"
      using none by (subst mark.simps) simp
    then show ?thesis
      using "1.hyps"(1) [OF True none] by simp
  next
    case False
    then show ?thesis by (simp add: mark_empty_range)
  qed
qed

lemma reuse_freed_empty: "m_freed_chunks h = [] \<Longrightarrow> reuse_freed k h sz i = None"
  by (subst reuse_freed.simps) simp

lemma not_pos_word: "(\<not> (0::size_t) < sz) = (sz = 0)"
  by (simp add: word_greater_zero_iff)

text \<open>The sample states with a freed chunk are reached through the debug collection.\<close>

lemma heap_one_freed_reached:
  "(case snd (alloc_lib k fa (new_Heap 4096) 10) of
      Inl e \<Rightarrow> False
    | Inr (a, h1) \<Rightarrow> a = 4096 \<and> collect_flags_lib k fa h1 (or MARK SWEEP) = heap_one_freed)"
  by (simp add: alloc_lib_def alloc_with_def bump_alloc_def reuse_freed_empty
      collect_flags_lib_def MARK_def SWEEP_def FREE_def stack_range_lib_def
      mark_empty_range sweep_eq heap_one_freed_def new_Heap_def HEAP_SIZE_def Let_def)

lemma heap_full_one_freed_reached:
  "(case snd (alloc_lib k fa (new_Heap 4096) HEAP_SIZE) of
      Inl e \<Rightarrow> False
    | Inr (a, h1) \<Rightarrow>
        a = 4096 \<and> collect_flags_lib k fa h1 (or MARK SWEEP) = heap_full_one_freed)"
  by (simp add: alloc_lib_def alloc_with_def bump_alloc_def reuse_freed_empty
      collect_flags_lib_def MARK_def SWEEP_def FREE_def stack_range_lib_def
      mark_empty_range sweep_eq heap_full_one_freed_def new_Heap_def HEAP_SIZE_def Let_def)

section \<open>The bump path\<close>

text \<open>
  Where no freed chunk is reused and the capacity test passes, \<^verbatim>\<open>lib/heap.cpp\<close>
  returns the base plus eight times the bump offset, \<^verbatim>\<open>heap.cpp\<close> the base
  plus the bump offset; both advance \<^verbatim>\<open>m_size\<close> by the size requested.
\<close>

lemma alloc_bump_address:
  assumes "sz \<noteq> 0" and "\<not> m_size h + sz > HEAP_SIZE" and "reuse_freed k h sz 0 = None"
  shows "map_sum id fst (snd (alloc_lib k fa h sz)) = Inr (m_heap h + 8 * unat (m_size h))"
    and "map_sum id fst (snd (alloc_top k fa d h sz)) = Inr (m_heap h + unat (m_size h))"
    and "map_sum id (m_size \<circ> snd) (snd (alloc_lib k fa h sz)) = Inr (m_size h + sz)"
    and "map_sum id (m_size \<circ> snd) (snd (alloc_top k fa d h sz)) = Inr (m_size h + sz)"
  using assms
  by (simp_all add: alloc_lib_def alloc_top_def alloc_with_def bump_alloc_def not_pos_word Let_def)

lemma unat_HEAP_SIZE: "unat HEAP_SIZE = 240240240"
  by (simp add: HEAP_SIZE_def)

lemma unat_bump:
  fixes a s :: size_t
  assumes "unat a + unat s \<le> unat HEAP_SIZE"
  shows "unat (a + s) = unat a + unat s" and "\<not> a + s > HEAP_SIZE"
proof -
  show u: "unat (a + s) = unat a + unat s"
    using assms by (simp add: unat_word_ariths unat_HEAP_SIZE)
  show "\<not> a + s > HEAP_SIZE"
    using assms u by (simp add: word_less_nat_alt)
qed

lemma alloc_top_step:
  assumes "m_freed_chunks h = []" and "s \<noteq> 0" and "unat (m_size h) + unat s \<le> unat HEAP_SIZE"
  shows "\<exists>h'. snd (alloc_top k fa d h s) = Inr (m_heap h + unat (m_size h), h') \<and>
              m_freed_chunks h' = [] \<and> m_heap h' = m_heap h \<and>
              unat (m_size h') = unat (m_size h) + unat s"
  using assms unat_bump [of "m_size h" s]
  by (simp add: alloc_top_def alloc_with_def bump_alloc_def reuse_freed_empty not_pos_word Let_def)

lemma alloc_all_top:
  assumes "m_freed_chunks h = []" and "\<forall>s\<in>set ss. s \<noteq> 0"
    and "unat (m_size h) + sum_list (map unat ss) \<le> unat HEAP_SIZE"
  shows "alloc_all (alloc_top k fa d) h ss = Inr (regions_from (m_heap h + unat (m_size h)) ss)"
  using assms
proof (induction ss arbitrary: h)
  case Nil
  show ?case by simp
next
  case (Cons s ss)
  from Cons.prems obtain h' where
    st: "snd (alloc_top k fa d h s) = Inr (m_heap h + unat (m_size h), h')"
    and h': "m_freed_chunks h' = []" "m_heap h' = m_heap h"
      "unat (m_size h') = unat (m_size h) + unat s"
    using alloc_top_step [of h s k fa d] by auto
  have "alloc_all (alloc_top k fa d) h' ss = Inr (regions_from (m_heap h' + unat (m_size h')) ss)"
    using Cons.prems h' by (intro Cons.IH) simp_all
  then show ?case
    using st h' by (simp add: add.assoc)
qed

lemma length_regions_from: "length (regions_from b ss) = length ss"
  by (induction ss arbitrary: b) simp_all

lemma regions_from_bounds:
  "(a, s) \<in> set (regions_from b ss) \<Longrightarrow>
     b \<le> a \<and> a + unat s \<le> b + sum_list (map unat ss)"
  by (induction ss arbitrary: b) fastforce+

lemma regions_from_disjoint:
  "i < j \<Longrightarrow> j < length ss \<Longrightarrow>
     fst (regions_from b ss ! i) + unat (snd (regions_from b ss ! i)) \<le> fst (regions_from b ss ! j)"
proof (induction ss arbitrary: b i j)
  case Nil
  then show ?case by simp
next
  case (Cons s ss)
  show ?case
  proof (cases i)
    case 0
    with Cons.prems obtain j' where j: "j = Suc j'" "j' < length ss"
      by (cases j) auto
    have "regions_from (b + unat s) ss ! j' \<in> set (regions_from (b + unat s) ss)"
      using j by (simp add: length_regions_from)
    then have "b + unat s \<le> fst (regions_from (b + unat s) ss ! j')"
      using regions_from_bounds [of "fst (regions_from (b + unat s) ss ! j')"
          "snd (regions_from (b + unat s) ss ! j')" "b + unat s" ss]
      by simp
    then show ?thesis using 0 j by simp
  next
    case (Suc i')
    with Cons.prems obtain j' where j: "j = Suc j'" "j' < length ss" "i' < j'"
      by (cases j) auto
    then show ?thesis using Suc Cons.IH [of i' j' "b + unat s"] by simp
  qed
qed

text \<open>
  \<^verbatim>\<open>heap.cpp\<close>, which adds the bump offset in bytes: on a new heap, calls with
  positive sizes summing to at most \<open>HEAP_SIZE\<close> all succeed, and the regions returned
  lie in the arena and follow one another without overlap.
\<close>

lemma alloc_top_regions_in_arena:
  assumes "\<forall>s\<in>set ss. s \<noteq> 0" and "sum_list (map unat ss) \<le> unat HEAP_SIZE"
  shows "\<exists>rs. alloc_all (alloc_top k fa d) (new_Heap base) ss = Inr rs \<and> length rs = length ss \<and>
           (\<forall>(a, s)\<in>set rs. base \<le> a \<and> a + unat s \<le> base + unat HEAP_SIZE) \<and>
           (\<forall>j<length rs. \<forall>i<j. fst (rs ! i) + unat (snd (rs ! i)) \<le> fst (rs ! j))"
proof -
  have run: "alloc_all (alloc_top k fa d) (new_Heap base) ss = Inr (regions_from base ss)"
    using assms alloc_all_top [of "new_Heap base" ss k fa d] by (simp add: new_Heap_def)
  have "\<forall>(a, s)\<in>set (regions_from base ss). base \<le> a \<and> a + unat s \<le> base + unat HEAP_SIZE"
    using regions_from_bounds [of _ _ base ss] assms(2) by fastforce
  then show ?thesis
    using run regions_from_disjoint [of _ _ ss base] by (simp add: length_regions_from)
qed

section \<open>What compaction does\<close>

lemma compact_loop_other: "p \<notin> set ps \<Longrightarrow> compact_loop b ps cs p = cs p"
  by (induction ps arbitrary: b cs) auto

lemma compact_loop_step:
  "compact_loop b (p # ps) cs =
     compact_loop (b + unat (csize (cs p))) ps (cs(p := (cs p)\<lparr>start := b\<rparr>))"
proof (cases "start (cs p) = b")
  case True
  then have "cs(p := (cs p)\<lparr>start := b\<rparr>) = cs"
    by (auto simp: fun_eq_iff)
  with True show ?thesis by simp
next
  case False
  then show ?thesis by simp
qed

lemma compact_loop_tiles:
  "distinct ps \<Longrightarrow>
     map (\<lambda>p. (start (compact_loop b ps cs p), csize (compact_loop b ps cs p))) ps =
     regions_from b (map (\<lambda>p. csize (cs p)) ps)"
proof (induction ps arbitrary: b cs)
  case Nil
  show ?case by simp
next
  case (Cons p ps)
  let ?cs = "cs(p := (cs p)\<lparr>start := b\<rparr>)"
  let ?b = "b + unat (csize (cs p))"
  have p: "p \<notin> set ps" and d: "distinct ps"
    using Cons.prems by simp_all
  have hd: "compact_loop ?b ps ?cs p = ?cs p"
    using p by (rule compact_loop_other)
  have sizes: "map (\<lambda>q. csize (?cs q)) ps = map (\<lambda>q. csize (cs q)) ps"
    using p by (intro map_cong) auto
  have "map (\<lambda>q. (start (compact_loop ?b ps ?cs q), csize (compact_loop ?b ps ?cs q))) ps =
        regions_from ?b (map (\<lambda>q. csize (?cs q)) ps)"
    using d by (rule Cons.IH)
  then show ?case
    using hd sizes by (simp only: compact_loop_step) simp
qed

text \<open>
  \<^verbatim>\<open>compact\<close> orders the live chunks by their old start addresses and lays them end
  to end from the base of the arena, keeping their sizes; it leaves \<^verbatim>\<open>m_size\<close> and
  \<^verbatim>\<open>m_freed_chunks\<close> as they were.
\<close>

lemma compact_tiles:
  assumes "distinct (m_allocated_chunks h)"
  shows "map (\<lambda>p. (start (chunk_at (compact h) p), csize (chunk_at (compact h) p)))
           (m_allocated_chunks (compact h)) =
         regions_from (m_heap h) (map (\<lambda>p. csize (chunk_at h p)) (m_allocated_chunks (compact h)))"
    and "set (m_allocated_chunks (compact h)) = set (m_allocated_chunks h)"
    and "length (m_allocated_chunks (compact h)) = length (m_allocated_chunks h)"
    and "sorted (map (\<lambda>p. start (chunk_at h p)) (m_allocated_chunks (compact h)))"
    and "m_size (compact h) = m_size h"
    and "m_freed_chunks (compact h) = m_freed_chunks h"
  using assms by (simp_all add: compact_def Let_def compact_loop_tiles)

section \<open>Invariants of the reachable states\<close>

text \<open>A call of \<open>alloc\<close> that returns has passed both assertions without collecting.\<close>

lemma alloc_with_Inr:
  assumes "snd (alloc_with c scale k h sz) = Inr r"
  shows "sz \<noteq> 0" and "\<not> m_size h + sz > HEAP_SIZE"
    and "r = (case reuse_freed k h sz 0 of Some r \<Rightarrow> r | None \<Rightarrow> bump_alloc scale h sz)"
  using assms
  by (auto simp add: alloc_with_def not_pos_word Let_def not_le split: if_splits option.splits)






text \<open>
  \<^verbatim>\<open>heap.cpp\<close> never moves a chunk out of \<^verbatim>\<open>m_allocated_chunks\<close> and never puts
  one into \<^verbatim>\<open>m_freed_chunks\<close>: every chunk comes from the bump path. As long as the
  sizes handed out sum to less than \<open>2 ^ 64\<close>, \<^verbatim>\<open>m_size\<close> is that sum and the chunks
  lie end to end from the base, in the order of the vector.
\<close>

lemma regions_from_append:
  "regions_from b (ss @ [s]) = regions_from b ss @ [(b + sum_list (map unat ss), s)]"
  by (induction ss arbitrary: b) (simp_all add: add.assoc)



lemma bump_alloc_eq:
  "bump_alloc scale h sz =
     (m_heap h + scale * unat (m_size h),
      h\<lparr>chunk_at := (chunk_at h)
            (next_chunk h := \<lparr>start = m_heap h + scale * unat (m_size h), csize = sz,
                              marked = False\<rparr>),
        next_chunk := Suc (next_chunk h),
        m_size := m_size h + sz,
        m_allocated_chunks := m_allocated_chunks h @ [next_chunk h]\<rparr>)"
  by (simp add: bump_alloc_def Let_def)

lemma reach_top_inv:
  "reach_top k h \<Longrightarrow>
     m_freed_chunks h = [] \<and> distinct (m_allocated_chunks h) \<and>
     (\<forall>p\<in>set (m_allocated_chunks h). p < next_chunk h \<and> csize (chunk_at h p) \<noteq> 0) \<and>
     (live_bytes h < 2 ^ 64 \<longrightarrow> unat (m_size h) = live_bytes h \<and> tiled h)"
proof (induction rule: reach_top.induct)
  case (top_new base t)
  show ?case
    by (simp add: new_Heap_def live_bytes_def tiled_def extents_def)
next
  case (top_alloc h fa d sz a h')
  let ?n = "next_chunk h"
  let ?c = "\<lparr>start = m_heap h + unat (m_size h), csize = sz, marked = False\<rparr>"
  from top_alloc.IH have fr: "m_freed_chunks h = []"
    and di: "distinct (m_allocated_chunks h)"
    and bd: "\<forall>p\<in>set (m_allocated_chunks h). p < ?n \<and> csize (chunk_at h p) \<noteq> 0"
    and nw: "live_bytes h < 2 ^ 64 \<longrightarrow> unat (m_size h) = live_bytes h \<and> tiled h"
    by simp_all
  from top_alloc.hyps(2) have sz: "sz \<noteq> 0"
    and r: "(a, h') = (case reuse_freed k h sz 0 of Some r \<Rightarrow> r | None \<Rightarrow> bump_alloc 1 h sz)"
    unfolding alloc_top_def by (rule alloc_with_Inr)+
  have h': "h' = h\<lparr>chunk_at := (chunk_at h)(?n := ?c), next_chunk := Suc ?n,
                    m_size := m_size h + sz,
                    m_allocated_chunks := m_allocated_chunks h @ [?n]\<rparr>"
    using r fr by (simp add: reuse_freed_empty bump_alloc_eq)
  have old: "chunk_at h' p = chunk_at h p" if "p \<in> set (m_allocated_chunks h)" for p
    using that bd h' by auto
  have al: "m_allocated_chunks h' = m_allocated_chunks h @ [?n]" and new: "chunk_at h' ?n = ?c"
    by (simp_all add: h')
  have same: "map (\<lambda>p. f (chunk_at h' p)) (m_allocated_chunks h) =
              map (\<lambda>p. f (chunk_at h p)) (m_allocated_chunks h)" for f :: "Chunk \<Rightarrow> 'b"
    using old by (intro map_cong) simp_all
  have ext: "extents h' = extents h @ [(m_heap h + unat (m_size h), sz)]"
    unfolding extents_def al using old by (simp add: new)
  have live: "live_bytes h' = live_bytes h + unat sz"
    unfolding live_bytes_def al using old by (simp add: new cong: map_cong)
  have "unat (m_size h') = live_bytes h' \<and> tiled h'" if lt: "live_bytes h' < 2 ^ 64"
  proof -
    from lt live nw have m: "unat (m_size h) = live_bytes h" and t: "tiled h"
      by simp_all
    have sizes: "sum_list (map unat (map snd (extents h))) = live_bytes h"
      by (simp add: extents_def live_bytes_def comp_def)
    have "unat (m_size h + sz) = live_bytes h + unat sz"
      using lt live m by (simp add: unat_word_ariths)
    moreover have "tiled h'"
    proof -
      have t': "regions_from (m_heap h) (map snd (extents h)) = extents h"
        using t by (simp add: tiled_def)
      have "regions_from (m_heap h) (map snd (extents h) @ [sz]) =
            extents h @ [(m_heap h + unat (m_size h), sz)]"
        by (simp only: regions_from_append t' sizes m)
      moreover have "m_heap h' = m_heap h"
        by (simp add: h')
      ultimately show ?thesis
        by (simp add: tiled_def ext)
    qed
    ultimately show ?thesis
      using live by (simp add: h')
  qed
  then show ?case
    using fr di bd sz by (auto simp add: h')
qed

text \<open>
  The sum stays below \<open>2 ^ 64\<close>, in fact within \<open>HEAP_SIZE\<close>, as long as no request
  exceeds the arena: a larger one passes the capacity test only when \<^verbatim>\<open>m_size + size\<close>
  wraps.
\<close>

lemma small_requests_do_not_wrap:
  assumes "reach_top k h" and "live_bytes h \<le> unat HEAP_SIZE" and "sz \<le> HEAP_SIZE"
    and "snd (alloc_top k fa d h sz) = Inr (a, h')"
  shows "live_bytes h' \<le> unat HEAP_SIZE"
proof -
  from reach_top_inv [OF assms(1)] assms(2)
  have fr: "m_freed_chunks h = []"
    and bd: "\<forall>p\<in>set (m_allocated_chunks h). p < next_chunk h"
    and m: "unat (m_size h) = live_bytes h"
    by (simp_all add: unat_HEAP_SIZE)
  from assms(4) have cap: "\<not> m_size h + sz > HEAP_SIZE"
    and r: "(a, h') = (case reuse_freed k h sz 0 of Some r \<Rightarrow> r | None \<Rightarrow> bump_alloc 1 h sz)"
    unfolding alloc_top_def by (rule alloc_with_Inr)+
  have al: "m_allocated_chunks h' = m_allocated_chunks h @ [next_chunk h]"
    and new: "csize (chunk_at h' (next_chunk h)) = sz"
    and old: "\<forall>p\<in>set (m_allocated_chunks h). chunk_at h' p = chunk_at h p"
    using r fr bd by (auto simp add: reuse_freed_empty bump_alloc_eq)
  have live: "live_bytes h' = live_bytes h + unat sz"
    unfolding live_bytes_def al using old by (simp add: new cong: map_cong)
  have "unat sz \<le> unat HEAP_SIZE"
    using assms(3) by (simp add: word_le_nat_alt)
  then have "unat (m_size h + sz) = unat (m_size h) + unat sz"
    using assms(2) m by (simp add: unat_word_ariths unat_HEAP_SIZE)
  moreover have "unat (m_size h + sz) \<le> unat HEAP_SIZE"
    using cap by (simp add: word_less_nat_alt)
  ultimately show ?thesis
    using live m by simp
qed



lemma collect_top_new_Heap: "10 \<le> d \<Longrightarrow> collect_top k fa d (new_Heap b) = Some (new_Heap b)"
  by (simp add: collect_top_eq compact_def new_Heap_def mark_no_work)

section \<open>Claims about alloc's error paths\<close>

text \<open>
  C9. A call \<open>alloc(size)\<close> with \<open>size = 0\<close> fails with InvalidRequest at the call
  itself: the assertion is the first statement that depends on \<open>size\<close>, and
  \<^verbatim>\<open>collect()\<close> has not been called. For every \<open>size > 0\<close> that failure is not taken.
  Both files.
\<close>

theorem alloc_zero_size_invalid:
  "(sz = 0 \<longrightarrow> alloc_lib k fa h sz = (0, Inl InvalidRequest)
              \<and> alloc_top k fa d h sz = (0, Inl InvalidRequest)) \<and>
   (sz \<noteq> 0 \<longrightarrow> snd (alloc_lib k fa h sz) \<noteq> Inl InvalidRequest
              \<and> snd (alloc_top k fa d h sz) \<noteq> Inl InvalidRequest)"
  by (simp add: alloc_lib_def alloc_top_def alloc_with_def not_pos_word Let_def
      split: option.splits)

theorem alloc_zero_size_invalid_witness:
  "alloc_lib 8 frames (new_Heap 4096) 0 = (0, Inl InvalidRequest) \<and>
   alloc_top 1 frames 12 (new_Heap 4096) 0 = (0, Inl InvalidRequest) \<and>
   snd (alloc_lib 8 frames (new_Heap 4096) 1) \<noteq> Inl InvalidRequest \<and>
   snd (alloc_top 1 frames 12 (new_Heap 4096) 1) \<noteq> Inl InvalidRequest"
  using alloc_zero_size_invalid [where sz = 0 and k = 8 and fa = frames and h = "new_Heap 4096"]
        alloc_zero_size_invalid [where sz = 0 and k = 1 and fa = frames and d = 12
          and h = "new_Heap 4096"]
        alloc_zero_size_invalid [where sz = 1 and k = 8 and fa = frames and h = "new_Heap 4096"]
        alloc_zero_size_invalid [where sz = 1 and k = 1 and fa = frames and d = 12
          and h = "new_Heap 4096"]
  by simp

text \<open>
  C10, as amended. In both files a call of \<^verbatim>\<open>collect()\<close> that returns leaves
  \<^verbatim>\<open>m_size\<close> as it was and returns with \<^verbatim>\<open>m_freed_chunks\<close> empty. So when \<open>alloc\<close>
  calls it because \<open>m_size + size > HEAP_SIZE\<close>, the inequality still holds
  afterwards, the loop over the freed chunks finds nothing, and the call does not
  return an address.
\<close>

theorem collect_cannot_rescue_alloc:
  "m_size (collect_lib k fa h) = m_size h \<and> m_freed_chunks (collect_lib k fa h) = [] \<and>
   (collect_top k fa d h = Some h' \<longrightarrow> m_size h' = m_size h \<and> m_freed_chunks h' = []) \<and>
   (sz \<noteq> 0 \<and> m_size h + sz > HEAP_SIZE \<longrightarrow>
      m_size (collect_lib k fa h) + sz > HEAP_SIZE \<and>
      reuse_freed k (collect_lib k fa h) sz 0 = None \<and>
      alloc_lib k fa h sz = (1, Inl OutOfMemory) \<and>
      isl (snd (alloc_top k fa d h sz)) \<and>
      (collect_top k fa d h = Some h' \<longrightarrow>
         m_size h' + sz > HEAP_SIZE \<and> reuse_freed k h' sz 0 = None \<and>
         alloc_top k fa d h sz = (1, Inl OutOfMemory)))"
proof -
  have top: "m_size h' = m_size h \<and> m_freed_chunks h' = []" if "collect_top k fa d h = Some h'"
    using collect_top_fields [OF that] by simp
  show ?thesis
    using top
    by (auto simp add: collect_lib_eq reuse_freed_empty alloc_lib_def alloc_top_def alloc_with_def
        not_pos_word Let_def not_le split: option.splits)
qed

theorem collect_cannot_rescue_alloc_witness:
  "(240240241::size_t) \<noteq> 0 \<and> m_size (new_Heap 4096) + 240240241 > HEAP_SIZE \<and>
   collect_top 1 frames 12 (new_Heap 4096) = Some (new_Heap 4096) \<and>
   m_freed_chunks (collect_lib 8 frames (new_Heap 4096)) = [] \<and>
   alloc_lib 8 frames (new_Heap 4096) 240240241 = (1, Inl OutOfMemory) \<and>
   alloc_top 1 frames 12 (new_Heap 4096) 240240241 = (1, Inl OutOfMemory)"
proof -
  have b: "(240240241::size_t) \<noteq> 0 \<and> m_size (new_Heap 4096) + 240240241 > HEAP_SIZE"
    by (simp add: new_Heap_def HEAP_SIZE_def)
  have c: "collect_top 1 frames 12 (new_Heap 4096) = Some (new_Heap 4096)"
    by (simp add: collect_top_new_Heap)
  show ?thesis
    using b c
      collect_cannot_rescue_alloc [where k = 8 and fa = frames and h = "new_Heap 4096"
        and sz = 240240241]
      collect_cannot_rescue_alloc [where k = 1 and fa = frames and d = 12 and h = "new_Heap 4096"
        and h' = "new_Heap 4096" and sz = 240240241]
    by simp
qed

text \<open>
  C10 as stated fails: not every call of \<^verbatim>\<open>collect()\<close> returns. On a new heap,
  \<open>alloc(HEAP_SIZE + 1)\<close> of \<^verbatim>\<open>heap.cpp\<close> from a stack with three caller frames calls
  \<^verbatim>\<open>collect()\<close>, which dies taking the address of the tenth.
\<close>

theorem collect_top_does_not_return:
  "collect_top 1 frames 3 (new_Heap 4096) = None \<and>
   alloc_top 1 frames 3 (new_Heap 4096) 240240241 = (1, Inl SegmentationFault)"
  by (simp add: collect_top_eq alloc_top_def alloc_with_def new_Heap_def HEAP_SIZE_def)

text \<open>
  C7, as amended. \<open>alloc(size)\<close> calls \<^verbatim>\<open>collect()\<close> only when
  \<open>m_size + size > HEAP_SIZE\<close> (exactly when that holds and \<open>size > 0\<close>, in \<^verbatim>\<open>size_t\<close>
  arithmetic), whether or not a freed chunk could serve the request; it calls it at
  most once; and when the request still exceeds the capacity after that call has
  returned, \<open>alloc\<close> fails with OutOfMemory. Both files.
\<close>

theorem alloc_collect_policy:
  "fst (alloc_lib k fa h sz) = (if sz \<noteq> 0 \<and> m_size h + sz > HEAP_SIZE then 1 else 0) \<and>
   fst (alloc_top k fa d h sz) = (if sz \<noteq> 0 \<and> m_size h + sz > HEAP_SIZE then 1 else 0) \<and>
   fst (alloc_lib k fa h sz) \<le> 1 \<and> fst (alloc_top k fa d h sz) \<le> 1 \<and>
   (fst (alloc_lib k fa h sz) = 1 \<and> \<not> m_size (collect_lib k fa h) + sz \<le> HEAP_SIZE \<longrightarrow>
      snd (alloc_lib k fa h sz) = Inl OutOfMemory) \<and>
   (fst (alloc_top k fa d h sz) = 1 \<and> collect_top k fa d h = Some h' \<and>
      \<not> m_size h' + sz \<le> HEAP_SIZE \<longrightarrow>
      snd (alloc_top k fa d h sz) = Inl OutOfMemory)"
  by (simp add: alloc_lib_def alloc_top_def alloc_with_def not_pos_word Let_def not_le
      split: option.splits)

theorem alloc_collect_policy_witness:
  "fst (alloc_lib 8 frames heap_full_one_freed 8) = 1 \<and>
   \<not> m_size (collect_lib 8 frames heap_full_one_freed) + 8 \<le> HEAP_SIZE \<and>
   snd (alloc_lib 8 frames heap_full_one_freed 8) = Inl OutOfMemory \<and>
   fst (alloc_top 1 frames 12 (new_Heap 4096) 240240241) = 1 \<and>
   collect_top 1 frames 12 (new_Heap 4096) = Some (new_Heap 4096) \<and>
   \<not> m_size (new_Heap 4096) + 240240241 \<le> HEAP_SIZE \<and>
   snd (alloc_top 1 frames 12 (new_Heap 4096) 240240241) = Inl OutOfMemory \<and>
   fst (alloc_lib 8 frames (new_Heap 4096) 8) = 0"
proof -
  have a: "(8::size_t) \<noteq> 0 \<and> m_size heap_full_one_freed + 8 > HEAP_SIZE \<and>
           \<not> m_size (collect_lib 8 frames heap_full_one_freed) + 8 \<le> HEAP_SIZE"
    by (simp add: collect_lib_eq heap_full_one_freed_def new_Heap_def HEAP_SIZE_def)
  have b: "(240240241::size_t) \<noteq> 0 \<and> m_size (new_Heap 4096) + 240240241 > HEAP_SIZE \<and>
           \<not> m_size (new_Heap 4096) + 240240241 \<le> HEAP_SIZE"
    by (simp add: new_Heap_def HEAP_SIZE_def)
  have c: "collect_top 1 frames 12 (new_Heap 4096) = Some (new_Heap 4096)"
    by (simp add: collect_top_new_Heap)
  have n: "\<not> m_size (new_Heap 4096) + 8 > HEAP_SIZE"
    by (simp add: new_Heap_def HEAP_SIZE_def)
  show ?thesis
    using a b c n
      alloc_collect_policy [where k = 8 and fa = frames and h = heap_full_one_freed and sz = 8]
      alloc_collect_policy [where k = 1 and fa = frames and d = 12 and h = "new_Heap 4096"
        and sz = 240240241 and h' = "new_Heap 4096"]
      alloc_collect_policy [where k = 8 and fa = frames and h = "new_Heap 4096" and sz = 8]
    by simp
qed

text \<open>
  C7 as stated fails: with the arena full and a freed chunk of 240240240 bytes at hand,
  \<open>alloc(8)\<close> of \<^verbatim>\<open>lib/heap.cpp\<close> still calls \<^verbatim>\<open>collect()\<close>.
\<close>

theorem alloc_collects_despite_freed_chunk:
  "fst (alloc_lib 8 frames heap_full_one_freed 8) = 1 \<and>
   m_size heap_full_one_freed + 8 > HEAP_SIZE \<and>
   m_freed_chunks heap_full_one_freed = [0] \<and>
   csize (chunk_at heap_full_one_freed 0) \<ge> 8"
  by (simp add: alloc_lib_def alloc_with_def heap_full_one_freed_def new_Heap_def HEAP_SIZE_def)

section \<open>Claims about sweep and the roots\<close>



text \<open>
  C1 (the code differs). \<^verbatim>\<open>collect()\<close> of \<^verbatim>\<open>lib/heap.cpp\<close> keeps exactly the
  chunks whose mark bit was already set before the call, whatever the stack holds:
  the range it hands to \<open>mark\<close> ends at the null pointer, so nothing is marked, and
  \<open>sweep\<close> and the release loop drop every unmarked chunk. A live chunk at 4096 is
  gone after the call, also when 4096 is a word of the stack.
\<close>

theorem collect_lib_drops_unmarked:
  "m_allocated_chunks (collect_lib k fa h) =
     filter (\<lambda>p. marked (chunk_at h p)) (m_allocated_chunks h) \<and>
   m_allocated_chunks heap_one_chunk = [0] \<and>
   start (chunk_at heap_one_chunk 0) = 4096 \<and>
   m_allocated_chunks (collect_lib k fa heap_one_chunk) = []"
  by (simp add: collect_lib_eq heap_one_chunk_def new_Heap_def)

text \<open>
  C4 (the code differs). The range scanned by \<^verbatim>\<open>collect()\<close> starts at the current
  frame, but it ends at the null pointer in \<^verbatim>\<open>lib/heap.cpp\<close> and at the frame ten
  calls up in \<^verbatim>\<open>heap.cpp\<close> (where there is one); \<^verbatim>\<open>m_stack_top\<close> is never read, so
  the outcome of \<^verbatim>\<open>collect()\<close> does not depend on it.
\<close>

theorem collect_ignores_stack_top:
  "stack_range_lib fa (h\<lparr>m_stack_top := t\<rparr>) = (fa 0, 0) \<and>
   stack_range_top fa d (h\<lparr>m_stack_top := t\<rparr>) = (if 10 \<le> d then Some (fa 0, fa 10) else None) \<and>
   collect_lib k fa (h\<lparr>m_stack_top := t\<rparr>) = (collect_lib k fa h)\<lparr>m_stack_top := t\<rparr> \<and>
   collect_top k fa d (h\<lparr>m_stack_top := t\<rparr>) =
     map_option (\<lambda>h'. h'\<lparr>m_stack_top := t\<rparr>) (collect_top k fa d h)"
  by (simp add: collect_lib_eq stack_range_lib_def stack_range_top_def collect_top_eq compact_def
      Let_def)

section \<open>Claims about the addresses alloc hands out\<close>

text \<open>
  C8 (the code differs). In \<^verbatim>\<open>lib/heap.cpp\<close> the new chunk starts at
  \<^verbatim>\<open>(uintptr_t *)m_heap + m_size\<close>, eight times the bump offset past the base: on a
  new heap at 4096, \<open>alloc(16)\<close> returns 4096 and \<open>alloc(8)\<close> then returns
  \<open>4096 + 8 * 16\<close>, while \<^verbatim>\<open>m_size\<close> is 24.
\<close>

theorem alloc_lib_scales_bump_offset:
  "(case snd (alloc_lib k fa (new_Heap 4096) 16) of
      Inl e \<Rightarrow> False
    | Inr (a1, h1) \<Rightarrow>
        a1 = 4096 \<and> m_size h1 = 16 \<and> m_freed_chunks h1 = [] \<and>
        (case snd (alloc_lib k fa h1 8) of
           Inl e \<Rightarrow> False
         | Inr (a2, h2) \<Rightarrow> a2 = 4096 + 8 * 16 \<and> m_size h2 = 24 \<and>
             m_allocated_chunks h2 = [0, 1] \<and> start (chunk_at h2 1) = 4224))"
  by (simp add: alloc_lib_def alloc_with_def bump_alloc_def reuse_freed_empty
      new_Heap_def HEAP_SIZE_def Let_def)

text \<open>
  C2 (the code differs). In \<^verbatim>\<open>lib/heap.cpp\<close>, on a new heap at 4096, the calls
  \<open>alloc(30030030)\<close> and \<open>alloc(1)\<close> (sizes summing to less than \<open>HEAP_SIZE\<close>) both
  succeed, and the second returns \<open>4096 + HEAP_SIZE\<close>, the first byte past the arena.
\<close>

theorem alloc_lib_leaves_arena:
  "sum_list (map unat [30030030, 1 :: size_t]) \<le> unat HEAP_SIZE \<and>
   alloc_all (alloc_lib k fa) (new_Heap 4096) [30030030, 1] =
     Inr [(4096, 30030030), (4096 + unat HEAP_SIZE, 1)]"
  by (simp add: alloc_lib_def alloc_with_def bump_alloc_def reuse_freed_empty
      new_Heap_def HEAP_SIZE_def Let_def)

text \<open>
  C3 (the code differs). \<open>alloc(4)\<close> with a freed chunk of 10 bytes at 4096 returns
  4096 and moves the chunk to \<^verbatim>\<open>m_allocated_chunks\<close>, but the chunk keeps size 10,
  and the complement of size 6 starts at \<^verbatim>\<open>cp->start + cp->size\<close>, past the end of
  the chunk, not at \<open>4096 + 4\<close>. The same text is in both files.
\<close>

theorem alloc_split_keeps_size:
  "(case snd (alloc_lib k fa heap_one_freed 4) of
      Inl e \<Rightarrow> False
    | Inr (a, h') \<Rightarrow>
        a = 4096 \<and> m_allocated_chunks h' = [0] \<and> m_freed_chunks h' = [1] \<and>
        csize (chunk_at h' 0) = 10 \<and>
        start (chunk_at h' 1) = 4096 + k * 10 \<and> csize (chunk_at h' 1) = 6) \<and>
   (case snd (alloc_top k fa d heap_one_freed 4) of
      Inl e \<Rightarrow> False
    | Inr (a, h') \<Rightarrow>
        a = 4096 \<and> m_allocated_chunks h' = [0] \<and> m_freed_chunks h' = [1] \<and>
        csize (chunk_at h' 0) = 10 \<and>
        start (chunk_at h' 1) = 4096 + k * 10 \<and> csize (chunk_at h' 1) = 6)"
  by (simp add: alloc_lib_def alloc_top_def alloc_with_def reuse_freed.simps chunk_end_def
      erase_def heap_one_freed_def new_Heap_def HEAP_SIZE_def Let_def)

section \<open>Claims about compaction\<close>



end
